theory Spec2Isabelle
  imports Main
begin

section \<open>programManager.ts: data model\<close>

text \<open>
  A shallow embedding of \<^verbatim>\<open>src/lib/main/lang/programManager.ts\<close>. The wrapped compiler
  engine, the language-service host, the project resolver and the path helpers live
  outside the file; they enter the model as the fields of an environment record and every
  theorem holds for all of them. Examples fix a small concrete environment.
\<close>

type_synonym path = string

text \<open>\<^verbatim>\<open>ts.TextChange\<close>: a span (start, length) and the replacement text. Offsets of spans
  are non-negative, hence \<open>nat\<close>.\<close>

record TextChange =
  span_start :: nat
  span_length :: nat
  newText :: string

section \<open>Formatting\<close>

text \<open>One pass of the loop body of \<^verbatim>\<open>formatCode\<close>:
  \<^verbatim>\<open>head = result.slice(0, start); tail = result.slice(start + length);
  result = head + newText + tail\<close>. On non-negative arguments \<^verbatim>\<open>slice(0, n)\<close> is \<open>take n\<close>
  and \<^verbatim>\<open>slice(n)\<close> is \<open>drop n\<close>, both clamped at the end of the string.\<close>

definition spliceChange :: "TextChange \<Rightarrow> string \<Rightarrow> string" where
  "spliceChange change result =
     (let head = take (span_start change) result;
          tail = drop (span_start change + span_length change) result
      in head @ newText change @ tail)"

text \<open>The loop \<^verbatim>\<open>for (var i = changes.length - 1; i >= 0; i--)\<close>; the counter of the model is
  \<open>i + 1\<close>, so that the loop stops at \<open>0\<close>.\<close>

fun formatCode_loop :: "TextChange list \<Rightarrow> nat \<Rightarrow> string \<Rightarrow> string" where
  "formatCode_loop changes 0 result = result"
| "formatCode_loop changes (Suc i) result =
     formatCode_loop changes i (spliceChange (changes ! i) result)"

definition formatCode :: "string \<Rightarrow> TextChange list \<Rightarrow> string" where
  "formatCode orig changes = formatCode_loop changes (length changes) orig"

text \<open>What a list of edits means on the original text when the edits are ordered by
  position, do not overlap and stay within the text (\<open>editsInOrder\<close>): the text before
  the first edit, its replacement, the text up to the next edit, and so on
  (\<open>applyInOrder\<close>). \<open>pos\<close> is the offset in the original text at which \<open>s\<close> starts,
  \<open>n\<close> the length of the original text.\<close>

fun editsInOrder :: "nat \<Rightarrow> nat \<Rightarrow> TextChange list \<Rightarrow> bool" where
  "editsInOrder pos n [] = (pos \<le> n)"
| "editsInOrder pos n (c # cs) =
     (pos \<le> span_start c \<and> editsInOrder (span_start c + span_length c) n cs)"

fun applyInOrder :: "nat \<Rightarrow> string \<Rightarrow> TextChange list \<Rightarrow> string" where
  "applyInOrder pos s [] = s"
| "applyInOrder pos s (c # cs) =
     take (span_start c - pos) s @ newText c @
     applyInOrder (span_start c + span_length c)
       (drop (span_start c + span_length c - pos) s) cs"

text \<open>The splice of one edit into a text that starts at offset \<open>pos\<close> of the original.\<close>

definition spliceAt :: "nat \<Rightarrow> TextChange \<Rightarrow> string \<Rightarrow> string" where
  "spliceAt pos c r =
     take (span_start c - pos) r @ newText c @ drop (span_start c + span_length c - pos) r"

section \<open>Projects, programs and the compiler service\<close>

text \<open>What can go wrong while the manager runs: a read of a file that is not on disk
  (\<^verbatim>\<open>fs.readFileSync\<close> throws), a failed write (\<^verbatim>\<open>fs.writeFileSync\<close> throws), a script
  the host does not hold, a project root that cannot be synthesized, and the property
  access \<^verbatim>\<open>diagnostic.file.filename\<close> on a diagnostic without a file.\<close>

datatype error =
    ENOENT path
  | EWRITE path
  | NoScript path
  | NoProject path
  | TypeError

text \<open>\<^verbatim>\<open>tsconfig.TypeScriptProjectFileDetails\<close>: the project root and \<^verbatim>\<open>project.files\<close>.\<close>

record TypeScriptProjectFileDetails =
  projectFileDirectory :: path
  files :: "path list"

text \<open>A \<^verbatim>\<open>Program\<close> owns its project file and its language-service host. Of the host the
  manager uses \<^verbatim>\<open>hasScript\<close>, \<^verbatim>\<open>addScript\<close> and \<^verbatim>\<open>getScriptContent\<close>: a finite map from file
  names to script contents. The language service is a function of the host
  (see \<open>env\<close> below).\<close>

record Program =
  projectFile :: TypeScriptProjectFileDetails
  languageServiceHost :: "path \<rightharpoonup> string"

record Position =
  line :: nat
  ch :: nat

text \<open>\<^verbatim>\<open>ts.Diagnostic\<close>; \<open>diag_file\<close> is \<open>None\<close> for a diagnostic without a source file.\<close>

record Diagnostic =
  diag_file :: "path option"
  diag_start :: nat
  diag_length :: nat
  messageText :: string

datatype EmitReturnStatus =
    Succeeded
  | AllOutputGenerationSkipped
  | JSGeneratedWithSemanticErrors
  | DeclarationGenerationSkipped
  | EmptyOutputDueToSemanticErrors
  | CompilerOptionsErrors

record OutputFile =
  out_name :: path
  out_text :: string

text \<open>\<^verbatim>\<open>ts.EmitOutput\<close>, the answer of \<^verbatim>\<open>getEmitOutput\<close>.\<close>

record ServiceEmitOutput =
  emitOutputStatus :: EmitReturnStatus
  service_outputFiles :: "OutputFile list"

text \<open>The manager's own \<^verbatim>\<open>EmitOutput\<close> and \<^verbatim>\<open>TSError\<close> interfaces.\<close>

record EmitOutput =
  outputFiles :: "path list"
  success :: bool

record TSError =
  filePath :: path
  startPos :: Position
  endPos :: Position
  message :: string
  preview :: string

text \<open>The calls the manager makes into the language service, in the order made.\<close>

datatype request =
    GetEmitOutput path
  | GetCompilerOptionsDiagnostics
  | GetSyntacticDiagnostics path
  | GetSemanticDiagnostics path

text \<open>Everything the file imports: \<^verbatim>\<open>ts.preProcessFile\<close> (the names of the referenced and of
  the imported files of a source text), the helpers of \<^verbatim>\<open>utils\<close> and \<^verbatim>\<open>path\<close>, whether
  \<^verbatim>\<open>fs.writeFileSync\<close> succeeds at a path, the constructor of the host, the two project
  resolvers of \<^verbatim>\<open>tsconfig\<close> (\<open>None\<close>: \<^verbatim>\<open>getProjectSync\<close> throws), the language service as a
  function of the host's scripts, and the host's \<^verbatim>\<open>getPositionFromIndex\<close>.\<close>

record env =
  preProcessFile :: "string \<Rightarrow> string list \<times> string list"
  pathResolve :: "path \<Rightarrow> string \<Rightarrow> path"
  pathIsRelative :: "string \<Rightarrow> bool"
  dirname :: "path \<Rightarrow> path"
  basename :: "path \<Rightarrow> string"
  extname :: "path \<Rightarrow> string"
  writable :: "path \<Rightarrow> bool"
  createHost :: "(path \<rightharpoonup> string) \<Rightarrow> TypeScriptProjectFileDetails \<Rightarrow> error + (path \<rightharpoonup> string)"
  getProjectSync :: "(path \<rightharpoonup> string) \<Rightarrow> path \<Rightarrow> TypeScriptProjectFileDetails option"
  createProjectRootSync :: "(path \<rightharpoonup> string) \<Rightarrow> path \<Rightarrow> error + TypeScriptProjectFileDetails"
  getEmitOutput :: "(path \<rightharpoonup> string) \<Rightarrow> path \<Rightarrow> ServiceEmitOutput"
  getCompilerOptionsDiagnostics :: "(path \<rightharpoonup> string) \<Rightarrow> Diagnostic list"
  getSyntacticDiagnostics :: "(path \<rightharpoonup> string) \<Rightarrow> path \<Rightarrow> Diagnostic list"
  getSemanticDiagnostics :: "(path \<rightharpoonup> string) \<Rightarrow> path \<Rightarrow> Diagnostic list"
  getPositionFromIndex :: "(path \<rightharpoonup> string) \<Rightarrow> path \<Rightarrow> nat \<Rightarrow> Position"

section \<open>Closure over references and imports\<close>

text \<open>\<^verbatim>\<open>willNeedMoreAnalysis\<close>: a file the host does not know is read from disk, added to the
  host and pushed onto \<^verbatim>\<open>project.files\<close>; a known file changes nothing.\<close>

definition willNeedMoreAnalysis ::
  "(path \<rightharpoonup> string) \<Rightarrow> Program \<Rightarrow> path \<Rightarrow> error + (bool \<times> Program)" where
  "willNeedMoreAnalysis dsk prog file =
     (if languageServiceHost prog file = None then
        (case dsk file of
           None \<Rightarrow> Inl (ENOENT file)
         | Some content \<Rightarrow>
             Inr (True,
               prog\<lparr>languageServiceHost := (languageServiceHost prog)(file \<mapsto> content),
                    projectFile := (projectFile prog)\<lparr>files := files (projectFile prog) @ [file]\<rparr>\<rparr>))
      else Inr (False, prog))"

text \<open>\<^verbatim>\<open>.filter(willNeedMoreAnalysis)\<close>: the predicate runs on the elements from left to right
  and changes the program as it goes; an exception ends the filter.\<close>

fun filter_willNeedMoreAnalysis ::
  "(path \<rightharpoonup> string) \<Rightarrow> Program \<Rightarrow> path list \<Rightarrow> error + (path list \<times> Program)" where
  "filter_willNeedMoreAnalysis dsk prog [] = Inr ([], prog)"
| "filter_willNeedMoreAnalysis dsk prog (file # rest) =
     (case willNeedMoreAnalysis dsk prog file of
        Inl e \<Rightarrow> Inl e
      | Inr (keep, prog') \<Rightarrow>
          (case filter_willNeedMoreAnalysis dsk prog' rest of
             Inl e \<Rightarrow> Inl e
           | Inr (moreFiles, prog'') \<Rightarrow> Inr (if keep then file # moreFiles else moreFiles, prog'')))"

text \<open>The body of the \<^verbatim>\<open>forEach\<close> of \<^verbatim>\<open>getReferencedOrImportedFiles\<close> for one file with text
  \<open>content\<close>: the references, resolved against the file's directory, followed by the
  relative imports, each resolved with \<^verbatim>\<open>'.ts'\<close> appended.\<close>

definition referencedOrImported :: "env \<Rightarrow> path \<Rightarrow> string \<Rightarrow> path list" where
  "referencedOrImported E file content =
     (let (referencedFiles, importedFiles) = preProcessFile E content;
          dir = dirname E file
      in map (\<lambda>fileReference. pathResolve E dir fileReference) referencedFiles
         @ map (\<lambda>fileReference. pathResolve E dir (fileReference @ ''.ts''))
             (filter (\<lambda>fileReference. pathIsRelative E fileReference) importedFiles))"

fun referencedLists :: "env \<Rightarrow> (path \<rightharpoonup> string) \<Rightarrow> path list \<Rightarrow> error + path list list" where
  "referencedLists E host [] = Inr []"
| "referencedLists E host (file # rest) =
     (case host file of
        None \<Rightarrow> Inl (NoScript file)
      | Some content \<Rightarrow>
          (case referencedLists E host rest of
             Inl e \<Rightarrow> Inl e
           | Inr referenced \<Rightarrow> Inr (referencedOrImported E file content # referenced)))"

text \<open>\<^verbatim>\<open>utils.selectMany\<close> flattens an array of arrays.\<close>

definition selectMany :: "'a list list \<Rightarrow> 'a list" where
  "selectMany xss = concat xss"

definition getReferencedOrImportedFiles :: "env \<Rightarrow> Program \<Rightarrow> path list \<Rightarrow> error + path list" where
  "getReferencedOrImportedFiles E prog fs =
     (case referencedLists E (languageServiceHost prog) fs of
        Inl e \<Rightarrow> Inl e
      | Inr referenced \<Rightarrow> Inr (selectMany referenced))"

text \<open>One scan: \<^verbatim>\<open>this.getReferencedOrImportedFiles(this.projectFile.project.files)
  .filter(willNeedMoreAnalysis)\<close>.\<close>

definition scanForMore ::
  "env \<Rightarrow> (path \<rightharpoonup> string) \<Rightarrow> Program \<Rightarrow> error + (path list \<times> Program)" where
  "scanForMore E dsk prog =
     (case getReferencedOrImportedFiles E prog (files (projectFile prog)) of
        Inl e \<Rightarrow> Inl e
      | Inr candidates \<Rightarrow> filter_willNeedMoreAnalysis dsk prog candidates)"

text \<open>\<^verbatim>\<open>while (more.length) { more = ... }\<close>. The loop need not end on an unbounded chain
  of files, so not returning is the value \<open>None\<close>.\<close>

partial_function (option) expandWhileMore ::
  "env \<Rightarrow> (path \<rightharpoonup> string) \<Rightarrow> path list \<Rightarrow> Program \<Rightarrow> (error + Program) option" where
  "expandWhileMore E dsk moreFiles prog =
     (if moreFiles \<noteq> [] then
        (case scanForMore E dsk prog of
           Inl e \<Rightarrow> Some (Inl e)
         | Inr (moreFiles', prog') \<Rightarrow> expandWhileMore E dsk moreFiles' prog')
      else Some (Inr prog))"

definition increaseProjectForReferenceAndImports ::
  "env \<Rightarrow> (path \<rightharpoonup> string) \<Rightarrow> Program \<Rightarrow> (error + Program) option" where
  "increaseProjectForReferenceAndImports E dsk prog =
     (case scanForMore E dsk prog of
        Inl e \<Rightarrow> Some (Inl e)
      | Inr (moreFiles, prog') \<Rightarrow> expandWhileMore E dsk moreFiles prog')"

text \<open>The reference/import relation the closure is taken over. A file's text is the
  host's script if the host has one, and the file on disk otherwise (what \<^verbatim>\<open>addScript\<close>
  will be given); an edge leads from a file to each path its text refers to.\<close>

definition contentOf :: "(path \<rightharpoonup> string) \<Rightarrow> (path \<rightharpoonup> string) \<Rightarrow> path \<rightharpoonup> string" where
  "contentOf dsk host file = (case host file of Some content \<Rightarrow> Some content | None \<Rightarrow> dsk file)"

definition edges :: "env \<Rightarrow> (path \<rightharpoonup> string) \<Rightarrow> (path \<times> path) set" where
  "edges E contents = {(f, g). \<exists>content. contents f = Some content \<and> g \<in> set (referencedOrImported E f content)}"

definition reachable :: "env \<Rightarrow> (path \<rightharpoonup> string) \<Rightarrow> Program \<Rightarrow> path set" where
  "reachable E dsk prog =
     (edges E (contentOf dsk (languageServiceHost prog)))\<^sup>* `` set (files (projectFile prog))"

section \<open>The process state\<close>

text \<open>The disk, the cache \<^verbatim>\<open>programs\<close> (project root to \<^verbatim>\<open>Program\<close> object), the \<^verbatim>\<open>Program\<close>
  objects that exist, and the calls made into the language service so far. An object is
  known by its position in \<open>heap\<close>: two references are the identical instance iff they are
  the same number. Objects are appended and never changed afterwards.\<close>

record world =
  disk :: "path \<rightharpoonup> string"
  programs :: "path \<rightharpoonup> nat"
  heap :: "Program list"
  requests :: "request list"

section \<open>Emit\<close>

text \<open>\<^verbatim>\<open>output.outputFiles.forEach(o => fs.writeFileSync(o.name, o.text, "utf8"))\<close>: the
  files are written in order; a write that throws ends the loop and leaves the earlier
  files on disk.\<close>

fun writeOutputFiles ::
  "env \<Rightarrow> (path \<rightharpoonup> string) \<Rightarrow> OutputFile list \<Rightarrow> (path \<rightharpoonup> string) \<times> error option" where
  "writeOutputFiles E dsk [] = (dsk, None)"
| "writeOutputFiles E dsk (out # rest) =
     (if writable E (out_name out)
      then writeOutputFiles E (dsk(out_name out \<mapsto> out_text out)) rest
      else (dsk, Some (EWRITE (out_name out))))"

text \<open>The disk after the given output files have been written in order.\<close>

definition written :: "(path \<rightharpoonup> string) \<Rightarrow> OutputFile list \<Rightarrow> (path \<rightharpoonup> string)" where
  "written dsk outs = foldl (\<lambda>d out. d(out_name out \<mapsto> out_text out)) dsk outs"

text \<open>\<^verbatim>\<open>emitFile\<close>. When the emit did not succeed the compiler-options, syntactic and semantic
  diagnostics are fetched and printed (printing to the console is not part of the state).
  The writes follow in either case.\<close>

definition emitFile :: "env \<Rightarrow> world \<Rightarrow> Program \<Rightarrow> path \<Rightarrow> world \<times> (error + EmitOutput)" where
  "emitFile E w prog fpath =
     (let output = getEmitOutput E (languageServiceHost prog) fpath;
          ok = (emitOutputStatus output = Succeeded);
          asked = requests w @ [GetEmitOutput fpath]
                  @ (if ok then []
                     else [GetCompilerOptionsDiagnostics, GetSyntacticDiagnostics fpath,
                           GetSemanticDiagnostics fpath]);
          (dsk, failure) = writeOutputFiles E (disk w) (service_outputFiles output);
          w' = w\<lparr>disk := dsk, requests := asked\<rparr>
      in case failure of
           Some e \<Rightarrow> (w', Inl e)
         | None \<Rightarrow>
             (w', Inr \<lparr>outputFiles = map out_name (service_outputFiles output)
                                      @ (if extname E fpath = ''.d.ts'' then [fpath] else []),
                       success = ok\<rparr>))"

text \<open>\<^verbatim>\<open>init\<close>: \<^verbatim>\<open>this.projectFile.project.files.forEach((filename) => this.emitFile(filename))\<close>.\<close>

fun emitEach :: "env \<Rightarrow> world \<Rightarrow> Program \<Rightarrow> path list \<Rightarrow> world \<times> (error + unit)" where
  "emitEach E w prog [] = (w, Inr ())"
| "emitEach E w prog (filename # rest) =
     (case emitFile E w prog filename of
        (w', Inl e) \<Rightarrow> (w', Inl e)
      | (w', Inr _) \<Rightarrow> emitEach E w' prog rest)"

definition init :: "env \<Rightarrow> world \<Rightarrow> Program \<Rightarrow> world \<times> (error + unit)" where
  "init E w prog = emitEach E w prog (files (projectFile prog))"

section \<open>The program cache\<close>

text \<open>The constructor of \<^verbatim>\<open>Program\<close>: create the host, grow the project, emit every file.
  An exception leaves no object behind.\<close>

definition newProgram ::
  "env \<Rightarrow> world \<Rightarrow> TypeScriptProjectFileDetails \<Rightarrow> (world \<times> (error + Program)) option" where
  "newProgram E w pf =
     (case createHost E (disk w) pf of
        Inl e \<Rightarrow> Some (w, Inl e)
      | Inr host \<Rightarrow>
          (case increaseProjectForReferenceAndImports E (disk w)
                  \<lparr>projectFile = pf, languageServiceHost = host\<rparr> of
             None \<Rightarrow> None
           | Some (Inl e) \<Rightarrow> Some (w, Inl e)
           | Some (Inr prog) \<Rightarrow>
               (case init E w prog of
                  (w', Inl e) \<Rightarrow> Some (w', Inl e)
                | (w', Inr _) \<Rightarrow> Some (w', Inr prog))))"

text \<open>\<^verbatim>\<open>getOrCreateProject\<close>: \<^verbatim>\<open>try { getProjectSync } catch { createProjectRootSync }\<close>.\<close>

definition getOrCreateProject ::
  "env \<Rightarrow> (path \<rightharpoonup> string) \<Rightarrow> path \<Rightarrow> error + TypeScriptProjectFileDetails" where
  "getOrCreateProject E dsk fpath =
     (case getProjectSync E dsk fpath of
        Some project \<Rightarrow> Inr project
      | None \<Rightarrow> createProjectRootSync E dsk fpath)"

text \<open>\<^verbatim>\<open>getOrCreateProgram\<close> returns a reference to the cached object of the project root, or
  constructs one, stores it under the root and returns it.\<close>

definition getOrCreateProgram :: "env \<Rightarrow> world \<Rightarrow> path \<Rightarrow> (world \<times> (error + nat)) option" where
  "getOrCreateProgram E w fpath =
     (case getOrCreateProject E (disk w) fpath of
        Inl e \<Rightarrow> Some (w, Inl e)
      | Inr pf \<Rightarrow>
          (case programs w (projectFileDirectory pf) of
             Some ref \<Rightarrow> Some (w, Inr ref)
           | None \<Rightarrow>
               (case newProgram E w pf of
                  None \<Rightarrow> None
                | Some (w', Inl e) \<Rightarrow> Some (w', Inl e)
                | Some (w', Inr prog) \<Rightarrow>
                    Some (w'\<lparr>heap := heap w' @ [prog],
                              programs := (programs w')(projectFileDirectory pf \<mapsto> length (heap w'))\<rparr>,
                          Inr (length (heap w'))))))"



section \<open>Diagnostics\<close>

text \<open>The body of the \<^verbatim>\<open>map\<close> of \<^verbatim>\<open>getErrorsForFile\<close>. \<^verbatim>\<open>substr(start, length)\<close> on non-negative
  arguments is \<open>take length (drop start s)\<close>.\<close>

definition toTSError :: "env \<Rightarrow> Program \<Rightarrow> path \<Rightarrow> Diagnostic \<Rightarrow> error + TSError" where
  "toTSError E program fpath diagnostic =
     (case diag_file diagnostic of
        None \<Rightarrow> Inl TypeError
      | Some filename \<Rightarrow>
          (case languageServiceHost program fpath of
             None \<Rightarrow> Inl (NoScript fpath)
           | Some content \<Rightarrow>
               Inr \<lparr>filePath = filename,
                    startPos = getPositionFromIndex E (languageServiceHost program) fpath
                                 (diag_start diagnostic),
                    endPos = getPositionFromIndex E (languageServiceHost program) fpath
                               (diag_length diagnostic + diag_start diagnostic),
                    message = messageText diagnostic,
                    preview = take (diag_length diagnostic) (drop (diag_start diagnostic) content)\<rparr>))"

fun mapToTSError :: "env \<Rightarrow> Program \<Rightarrow> path \<Rightarrow> Diagnostic list \<Rightarrow> error + TSError list" where
  "mapToTSError E program fpath [] = Inr []"
| "mapToTSError E program fpath (diagnostic # rest) =
     (case toTSError E program fpath diagnostic of
        Inl e \<Rightarrow> Inl e
      | Inr err \<Rightarrow>
          (case mapToTSError E program fpath rest of
             Inl e \<Rightarrow> Inl e
           | Inr errs \<Rightarrow> Inr (err # errs)))"

definition getErrorsForFile ::
  "env \<Rightarrow> world \<Rightarrow> path \<Rightarrow> (world \<times> (error + TSError list)) option" where
  "getErrorsForFile E w fpath =
     (case getOrCreateProgram E w fpath of
        None \<Rightarrow> None
      | Some (w1, Inl e) \<Rightarrow> Some (w1, Inl e)
      | Some (w1, Inr ref) \<Rightarrow>
          (let program = heap w1 ! ref;
               syntactic = getSyntacticDiagnostics E (languageServiceHost program) fpath;
               diagnostics =
                 (if length syntactic = 0
                  then getSemanticDiagnostics E (languageServiceHost program) fpath
                  else syntactic);
               asked = requests w1 @ [GetSyntacticDiagnostics fpath]
                       @ (if length syntactic = 0 then [GetSemanticDiagnostics fpath] else [])
           in Some (w1\<lparr>requests := asked\<rparr>, mapToTSError E program fpath diagnostics)))"

definition getErrorsForFileFiltered ::
  "env \<Rightarrow> world \<Rightarrow> path \<Rightarrow> (world \<times> (error + TSError list)) option" where
  "getErrorsForFileFiltered E w fpath =
     (let fileName = basename E fpath
      in case getErrorsForFile E w fpath of
           None \<Rightarrow> None
         | Some (w', Inl e) \<Rightarrow> Some (w', Inl e)
         | Some (w', Inr errs) \<Rightarrow>
             Some (w', Inr (filter (\<lambda>err. basename E (filePath err) = fileName) errs)))"

section \<open>The claim about import suffixes, as the specification words it\<close>



section \<open>A concrete environment for the examples\<close>

text \<open>POSIX paths as Node's \<^verbatim>\<open>path\<close> module treats them: \<^verbatim>\<open>dirname\<close>, \<^verbatim>\<open>basename\<close>, \<^verbatim>\<open>extname\<close>
  and \<^verbatim>\<open>resolve\<close> of a name against an absolute directory (empty and \<^verbatim>\<open>.\<close> segments are
  dropped, \<^verbatim>\<open>..\<close> removes a segment).\<close>

fun splitPath :: "string \<Rightarrow> string list" where
  "splitPath [] = [[]]"
| "splitPath (c # cs) =
     (if c = CHR ''/'' then [] # splitPath cs
      else (case splitPath cs of [] \<Rightarrow> [[c]] | seg # segs \<Rightarrow> (c # seg) # segs))"

fun normalizeSegments :: "string list \<Rightarrow> string list \<Rightarrow> string list" where
  "normalizeSegments acc [] = rev acc"
| "normalizeSegments acc (seg # segs) =
     (if seg = [] \<or> seg = ''.'' then normalizeSegments acc segs
      else if seg = ''..'' then normalizeSegments (tl acc) segs
      else normalizeSegments (seg # acc) segs)"

definition joinSegments :: "string list \<Rightarrow> path" where
  "joinSegments segs = (if segs = [] then ''/'' else concat (map (\<lambda>seg. CHR ''/'' # seg) segs))"

definition posix_resolve :: "path \<Rightarrow> string \<Rightarrow> path" where
  "posix_resolve dir name =
     (if take 1 name = ''/'' then joinSegments (normalizeSegments [] (splitPath name))
      else joinSegments (normalizeSegments [] (splitPath dir @ splitPath name)))"

definition posix_basename :: "path \<Rightarrow> string" where
  "posix_basename p = rev (takeWhile (\<lambda>c. c \<noteq> CHR ''/'') (rev p))"

definition posix_dirname :: "path \<Rightarrow> path" where
  "posix_dirname p =
     (let d = rev (drop 1 (dropWhile (\<lambda>c. c \<noteq> CHR ''/'') (rev p)))
      in if d = [] then ''/'' else d)"

definition posix_extname :: "path \<Rightarrow> string" where
  "posix_extname p =
     (let b = posix_basename p;
          e = rev (takeWhile (\<lambda>c. c \<noteq> CHR ''.'') (rev b))
      in if CHR ''.'' \<notin> set (drop 1 b) then [] else CHR ''.'' # e)"

definition isRelative :: "string \<Rightarrow> bool" where
  "isRelative name \<longleftrightarrow> take 2 name = ''./'' \<or> take 3 name = ''../''"

text \<open>A small stand-in for the compiler engine. Source texts are single letters: \<open>A\<close>
  references \<open>b.ts\<close> and imports \<open>./c\<close> and the module \<open>fs\<close>; \<open>B\<close> imports \<open>./a\<close> (a
  cycle); \<open>D\<close> imports \<open>./c.ts\<close>, a name that carries an extension; \<open>X\<close> imports
  \<open>../y/index\<close>. A file with text \<open>Y\<close> has a syntax error: its emit fails (still
  producing three output files, one of them under \<open>/ro/\<close>), and the semantic diagnostics
  of a file with text \<open>X\<close> report the error of the file it imports, attributed to that
  file. Files under \<open>/q/\<close> belong to one configured project with root \<open>/q\<close> and entry
  \<open>/q/x/index.ts\<close>; any other file is the single file of a project rooted at its
  directory.\<close>

definition demo_preProcessFile :: "string \<Rightarrow> string list \<times> string list" where
  "demo_preProcessFile content =
     (if content = ''A'' then ([''b.ts''], [''./c'', ''fs''])
      else if content = ''B'' then ([], [''./a''])
      else if content = ''D'' then ([], [''./c.ts''])
      else if content = ''X'' then ([], [''../y/index''])
      else ([], []))"

definition demo_getEmitOutput :: "(path \<rightharpoonup> string) \<Rightarrow> path \<Rightarrow> ServiceEmitOutput" where
  "demo_getEmitOutput host fpath =
     (if host fpath = Some ''Y''
      then \<lparr>emitOutputStatus = AllOutputGenerationSkipped,
            service_outputFiles =
              [\<lparr>out_name = fpath @ ''.js'', out_text = ''js''\<rparr>,
               \<lparr>out_name = ''/ro/y.map'', out_text = ''map''\<rparr>,
               \<lparr>out_name = fpath @ ''.d.ts'', out_text = ''decl''\<rparr>]\<rparr>
      else \<lparr>emitOutputStatus = Succeeded,
            service_outputFiles = [\<lparr>out_name = fpath @ ''.js'', out_text = ''js''\<rparr>]\<rparr>)"

definition demo_getSyntacticDiagnostics :: "(path \<rightharpoonup> string) \<Rightarrow> path \<Rightarrow> Diagnostic list" where
  "demo_getSyntacticDiagnostics host fpath =
     (if host fpath = Some ''Y''
      then [\<lparr>diag_file = Some fpath, diag_start = 0, diag_length = 1, messageText = ''expected''\<rparr>]
      else [])"

definition demo_getSemanticDiagnostics :: "(path \<rightharpoonup> string) \<Rightarrow> path \<Rightarrow> Diagnostic list" where
  "demo_getSemanticDiagnostics host fpath =
     (if host fpath = Some ''X''
      then [\<lparr>diag_file = Some (posix_resolve (posix_dirname fpath) ''../y/index.ts''),
             diag_start = 0, diag_length = 1, messageText = ''expected''\<rparr>]
      else [])"

fun demo_loadScripts :: "(path \<rightharpoonup> string) \<Rightarrow> path list \<Rightarrow> error + (path \<rightharpoonup> string)" where
  "demo_loadScripts dsk [] = Inr Map.empty"
| "demo_loadScripts dsk (f # fs) =
     (case dsk f of
        None \<Rightarrow> Inl (ENOENT f)
      | Some content \<Rightarrow>
          (case demo_loadScripts dsk fs of
             Inl e \<Rightarrow> Inl e
           | Inr host \<Rightarrow> Inr (host(f \<mapsto> content))))"

definition demo_env :: env where
  "demo_env =
     \<lparr>preProcessFile = demo_preProcessFile,
      pathResolve = posix_resolve,
      pathIsRelative = isRelative,
      dirname = posix_dirname,
      basename = posix_basename,
      extname = posix_extname,
      writable = (\<lambda>p. True),
      createHost = (\<lambda>dsk pf. demo_loadScripts dsk (files pf)),
      getProjectSync =
        (\<lambda>dsk fpath.
           if take 3 fpath = ''/q/''
           then Some \<lparr>projectFileDirectory = ''/q'', files = [''/q/x/index.ts'']\<rparr>
           else None),
      createProjectRootSync =
        (\<lambda>dsk fpath. Inr \<lparr>projectFileDirectory = posix_dirname fpath, files = [fpath]\<rparr>),
      getEmitOutput = demo_getEmitOutput,
      getCompilerOptionsDiagnostics = (\<lambda>host. []),
      getSyntacticDiagnostics = demo_getSyntacticDiagnostics,
      getSemanticDiagnostics = demo_getSemanticDiagnostics,
      getPositionFromIndex = (\<lambda>host fpath i. \<lparr>line = 0, ch = i\<rparr>)\<rparr>"

definition demo_disk :: "path \<rightharpoonup> string" where
  "demo_disk =
     [''/p/a.ts'' \<mapsto> ''A'', ''/p/b.ts'' \<mapsto> ''B'', ''/p/c.ts'' \<mapsto> ''C'', ''/p/d.ts'' \<mapsto> ''D'',
      ''/q/x/index.ts'' \<mapsto> ''X'', ''/q/y/index.ts'' \<mapsto> ''Y'']"

text \<open>The project of \<open>/p/a.ts\<close> before the closure, and a process that has not created any
  program yet.\<close>

definition demo_program :: Program where
  "demo_program =
     \<lparr>projectFile = \<lparr>projectFileDirectory = ''/p'', files = [''/p/a.ts'']\<rparr>,
      languageServiceHost = [''/p/a.ts'' \<mapsto> ''A'']\<rparr>"

definition demo_world :: world where
  "demo_world = \<lparr>disk = demo_disk, programs = Map.empty, heap = [], requests = []\<rparr>"

text \<open>The same project after the closure.\<close>

definition demo_closed :: Program where
  "demo_closed =
     \<lparr>projectFile = \<lparr>projectFileDirectory = ''/p'', files = [''/p/a.ts'', ''/p/b.ts'', ''/p/c.ts'']\<rparr>,
      languageServiceHost = [''/p/a.ts'' \<mapsto> ''A'', ''/p/b.ts'' \<mapsto> ''B'', ''/p/c.ts'' \<mapsto> ''C'']\<rparr>"


text \<open>The same engine on a disk where nothing under \<open>/ro/\<close> can be written.\<close>

definition demo_env_ro :: env where
  "demo_env_ro = demo_env\<lparr>writable := (\<lambda>p. take 4 p \<noteq> ''/ro/'')\<rparr>"

text \<open>The project of \<open>/q/x/index.ts\<close> after the closure.\<close>

definition demo_program_q :: Program where
  "demo_program_q =
     \<lparr>projectFile = \<lparr>projectFileDirectory = ''/q'', files = [''/q/x/index.ts'', ''/q/y/index.ts'']\<rparr>,
      languageServiceHost = [''/q/x/index.ts'' \<mapsto> ''X'', ''/q/y/index.ts'' \<mapsto> ''Y'']\<rparr>"


text \<open>The process after the first request for the program of \<open>/q/x/index.ts\<close>: the project
  has grown by the imported file, both files have been emitted, and the failed emit of the
  imported file has fetched its diagnostics.\<close>

definition demo_world_q :: world where
  "demo_world_q =
     \<lparr>disk = demo_disk(''/q/x/index.ts.js'' \<mapsto> ''js'', ''/q/y/index.ts.js'' \<mapsto> ''js'',
                       ''/ro/y.map'' \<mapsto> ''map'', ''/q/y/index.ts.d.ts'' \<mapsto> ''decl''),
      programs = [''/q'' \<mapsto> 0],
      heap = [demo_program_q],
      requests = [GetEmitOutput ''/q/x/index.ts'', GetEmitOutput ''/q/y/index.ts'',
                  GetCompilerOptionsDiagnostics, GetSyntacticDiagnostics ''/q/y/index.ts'',
                  GetSemanticDiagnostics ''/q/y/index.ts'']\<rparr>"

section \<open>Properties of formatting\<close>

lemma formatCode_loop_foldr:
  "k \<le> length changes \<Longrightarrow>
   formatCode_loop changes k result = foldr spliceChange (take k changes) result"
proof (induction k arbitrary: result)
  case 0
  then show ?case by simp
next
  case (Suc k)
  then have "k < length changes" by simp
  then have "take (Suc k) changes = take k changes @ [changes ! k]"
    by (rule take_Suc_conv_app_nth)
  with Suc show ?case by simp
qed

lemma formatCode_foldr: "formatCode orig changes = foldr spliceChange changes orig"
  by (simp add: formatCode_def formatCode_loop_foldr)

text \<open>Claim C3. \<^verbatim>\<open>formatCode\<close> splices the edits into the text from the last edit to the
  first: the result is the right fold of the splice over the edit list, for every text and
  every edit list. With no edits the text comes back unchanged, and replacing the span
  [2,4) of "abcdef" by "X" gives "abXef".\<close>

theorem formatCode_last_to_first:
  "formatCode orig changes = foldr spliceChange changes orig
   \<and> formatCode orig [] = orig
   \<and> formatCode ''abcdef'' [\<lparr>span_start = 2, span_length = 2, newText = ''X''\<rparr>] = ''abXef''"
  by (simp add: formatCode_foldr spliceChange_def)

subsection \<open>Edits in order\<close>

lemma spliceAt_0: "spliceAt 0 = spliceChange"
  by (intro ext) (simp add: spliceAt_def spliceChange_def)

lemma editsInOrder_mono: "editsInOrder p n cs \<Longrightarrow> q \<le> p \<Longrightarrow> editsInOrder q n cs"
  by (cases cs) auto

lemma editsInOrder_bound: "editsInOrder p n cs \<Longrightarrow> p \<le> n"
  by (induction cs arbitrary: p) fastforce+

lemma foldr_spliceAt_prefix:
  "editsInOrder q n cs \<Longrightarrow> pos \<le> q \<Longrightarrow> q - pos \<le> length s \<Longrightarrow>
   foldr (spliceAt pos) cs s = take (q - pos) s @ foldr (spliceAt q) cs (drop (q - pos) s)"
proof (induction cs)
  case Nil
  then show ?case by simp
next
  case (Cons c cs)
  let ?R = "foldr (spliceAt q) cs (drop (q - pos) s)"
  from Cons.prems(1) have q: "q \<le> span_start c"
    and rest: "editsInOrder (span_start c + span_length c) n cs" by simp_all
  from rest have "editsInOrder q n cs" using q by (intro editsInOrder_mono[OF rest]) simp
  from Cons.IH[OF this Cons.prems(2,3)]
  have ih: "foldr (spliceAt pos) cs s = take (q - pos) s @ ?R" .
  have len: "length (take (q - pos) s) = q - pos" using Cons.prems(3) by simp
  have a: "take (span_start c - pos) (take (q - pos) s @ ?R)
             = take (q - pos) s @ take (span_start c - q) ?R"
    using q Cons.prems(2) len by (simp add: take_append)
  have b: "drop (span_start c + span_length c - pos) (take (q - pos) s @ ?R)
             = drop (span_start c + span_length c - q) ?R"
    using q Cons.prems(2) len by (simp add: drop_append)
  have "foldr (spliceAt pos) (c # cs) s = spliceAt pos c (take (q - pos) s @ ?R)"
    by (simp add: ih)
  also have "\<dots> = take (span_start c - pos) (take (q - pos) s @ ?R) @ newText c
                  @ drop (span_start c + span_length c - pos) (take (q - pos) s @ ?R)"
    by (simp only: spliceAt_def)
  also have "\<dots> = (take (q - pos) s @ take (span_start c - q) ?R) @ newText c
                  @ drop (span_start c + span_length c - q) ?R"
    by (simp only: a b)
  also have "\<dots> = take (q - pos) s @ spliceAt q c ?R"
    by (simp only: spliceAt_def append_assoc)
  finally show ?case by simp
qed

lemma foldr_spliceAt_applyInOrder:
  "editsInOrder pos (pos + length s) cs \<Longrightarrow> foldr (spliceAt pos) cs s = applyInOrder pos s cs"
proof (induction cs arbitrary: pos s)
  case Nil
  then show ?case by simp
next
  case (Cons c cs)
  let ?q = "span_start c + span_length c"
  from Cons.prems have p: "pos \<le> span_start c"
    and rest: "editsInOrder ?q (pos + length s) cs" by simp_all
  from editsInOrder_bound[OF rest] have bound: "?q - pos \<le> length s" by simp
  from p have pq: "pos \<le> ?q" by simp
  let ?T = "foldr (spliceAt ?q) cs (drop (?q - pos) s)"
  have pre: "foldr (spliceAt pos) cs s = take (?q - pos) s @ ?T"
    using rest pq bound by (rule foldr_spliceAt_prefix)
  have "?q + length (drop (?q - pos) s) = pos + length s" using bound pq by simp
  with rest have "editsInOrder ?q (?q + length (drop (?q - pos) s)) cs" by (simp only:)
  from Cons.IH[OF this] have ih: "?T = applyInOrder ?q (drop (?q - pos) s) cs" .
  have len: "length (take (?q - pos) s) = ?q - pos" using bound by simp
  have a: "take (span_start c - pos) (take (?q - pos) s @ ?T) = take (span_start c - pos) s"
    using p len by (simp add: take_append min_def)
  have b: "drop (?q - pos) (take (?q - pos) s @ ?T) = ?T"
    using len by (simp add: drop_append)
  have "foldr (spliceAt pos) (c # cs) s = spliceAt pos c (take (?q - pos) s @ ?T)"
    by (simp add: pre)
  also have "\<dots> = take (span_start c - pos) (take (?q - pos) s @ ?T) @ newText c
                  @ drop (?q - pos) (take (?q - pos) s @ ?T)"
    by (simp only: spliceAt_def)
  also have "\<dots> = take (span_start c - pos) s @ newText c @ ?T"
    by (simp only: a b)
  also have "\<dots> = take (span_start c - pos) s @ newText c @ applyInOrder ?q (drop (?q - pos) s) cs"
    by (simp only: ih)
  finally show ?case by simp
qed

text \<open>Why the order of the loop is right: when the edits are ordered by position and do
  not overlap or reach past the end of the text, splicing them in from the last to the
  first gives the text in which every edit has replaced its span of the original, the
  offsets of all edits being read in the original text.\<close>

theorem formatCode_in_order:
  assumes "editsInOrder 0 (length orig) changes"
  shows "formatCode orig changes = applyInOrder 0 orig changes"
  using foldr_spliceAt_applyInOrder[of 0 orig changes] assms
  by (simp add: formatCode_foldr spliceAt_0)

theorem formatCode_in_order_witness:
  "formatCode ''let  x=1 ;'' [\<lparr>span_start = 3, span_length = 2, newText = '' ''\<rparr>,
                             \<lparr>span_start = 6, span_length = 0, newText = '' ''\<rparr>,
                             \<lparr>span_start = 7, span_length = 0, newText = '' ''\<rparr>,
                             \<lparr>span_start = 8, span_length = 1, newText = []\<rparr>]
     = ''let x = 1;''"
proof -
  let ?cs = "[\<lparr>span_start = 3, span_length = 2, newText = '' ''\<rparr>,
              \<lparr>span_start = 6, span_length = 0, newText = '' ''\<rparr>,
              \<lparr>span_start = 7, span_length = 0, newText = '' ''\<rparr>,
              \<lparr>span_start = 8, span_length = 1, newText = []\<rparr>]"
  have "editsInOrder 0 (length ''let  x=1 ;'') ?cs" by simp
  from formatCode_in_order[OF this] show ?thesis by simp
qed

section \<open>Properties of the closure\<close>

lemma willNeedMoreAnalysis_known:
  "languageServiceHost prog file \<noteq> None \<Longrightarrow> willNeedMoreAnalysis dsk prog file = Inr (False, prog)"
  by (auto simp: willNeedMoreAnalysis_def)

lemma contentOf_add:
  "host file = None \<Longrightarrow> dsk file = Some content \<Longrightarrow> contentOf dsk (host(file \<mapsto> content)) = contentOf dsk host"
  by (rule ext) (simp add: contentOf_def)

lemma willNeedMoreAnalysis_step:
  assumes "willNeedMoreAnalysis dsk prog file = Inr (keep, prog')"
  shows "dom (languageServiceHost prog') = insert file (dom (languageServiceHost prog))"
    and "set (files (projectFile prog')) = set (files (projectFile prog)) \<union> (if keep then {file} else {})"
    and "keep \<longleftrightarrow> file \<notin> dom (languageServiceHost prog)"
    and "contentOf dsk (languageServiceHost prog') = contentOf dsk (languageServiceHost prog)"
    and "projectFileDirectory (projectFile prog') = projectFileDirectory (projectFile prog)"
    and "\<not> keep \<Longrightarrow> prog' = prog"
  using assms
  by (auto simp: willNeedMoreAnalysis_def contentOf_add split: if_splits option.splits)

lemma filter_willNeedMoreAnalysis_props:
  "filter_willNeedMoreAnalysis dsk prog cands = Inr (m, prog') \<Longrightarrow>
     dom (languageServiceHost prog') = dom (languageServiceHost prog) \<union> set cands
   \<and> set (files (projectFile prog')) = set (files (projectFile prog)) \<union> set m
   \<and> set m = set cands - dom (languageServiceHost prog)
   \<and> contentOf dsk (languageServiceHost prog') = contentOf dsk (languageServiceHost prog)
   \<and> projectFileDirectory (projectFile prog') = projectFileDirectory (projectFile prog)
   \<and> (m = [] \<longrightarrow> prog' = prog)"
proof (induction cands arbitrary: prog m prog')
  case Nil
  then show ?case by simp
next
  case (Cons f0 rest)
  from Cons.prems obtain keep p1 where w: "willNeedMoreAnalysis dsk prog f0 = Inr (keep, p1)"
    by (auto split: sum.splits)
  with Cons.prems obtain m1 where f: "filter_willNeedMoreAnalysis dsk p1 rest = Inr (m1, prog')"
    and m: "m = (if keep then f0 # m1 else m1)"
    by (auto split: sum.splits)
  note s = willNeedMoreAnalysis_step[OF w]
  note ih = Cons.IH[OF f]
  show ?case
  proof (cases keep)
    case True
    with s ih m show ?thesis by auto
  next
    case False
    with s(6) have "p1 = prog" by simp
    with False s ih m show ?thesis by auto
  qed
qed


lemma filter_willNeedMoreAnalysis_ok:
  "set cands \<subseteq> dom (contentOf dsk (languageServiceHost prog)) \<Longrightarrow>
   \<exists>m prog'. filter_willNeedMoreAnalysis dsk prog cands = Inr (m, prog')"
proof (induction cands arbitrary: prog)
  case Nil
  then show ?case by simp
next
  case (Cons f0 rest)
  from Cons.prems obtain c where c: "contentOf dsk (languageServiceHost prog) f0 = Some c"
    by auto
  then obtain keep p1 where w: "willNeedMoreAnalysis dsk prog f0 = Inr (keep, p1)"
    by (auto simp: willNeedMoreAnalysis_def contentOf_def split: option.splits)
  from willNeedMoreAnalysis_step(4)[OF w] Cons.prems
  have "set rest \<subseteq> dom (contentOf dsk (languageServiceHost p1))" by simp
  from Cons.IH[OF this] obtain m p2 where "filter_willNeedMoreAnalysis dsk p1 rest = Inr (m, p2)"
    by blast
  with w show ?case by simp
qed

lemma referencedLists_known:
  "set fs \<subseteq> dom host \<Longrightarrow>
   referencedLists E host fs = Inr (map (\<lambda>f. referencedOrImported E f (the (host f))) fs)"
  by (induction fs) auto

lemma getReferencedOrImportedFiles_known:
  assumes "set fs \<subseteq> dom (languageServiceHost prog)"
  shows "\<exists>cands. getReferencedOrImportedFiles E prog fs = Inr cands
           \<and> set cands = edges E (contentOf dsk (languageServiceHost prog)) `` set fs"
proof -
  let ?cands = "concat (map (\<lambda>f. referencedOrImported E f (the (languageServiceHost prog f))) fs)"
  have "getReferencedOrImportedFiles E prog fs = Inr ?cands"
    by (simp add: getReferencedOrImportedFiles_def referencedLists_known[OF assms] selectMany_def)
  moreover have "set ?cands = edges E (contentOf dsk (languageServiceHost prog)) `` set fs"
  proof (intro set_eqI iffI)
    fix g assume "g \<in> set ?cands"
    then obtain f where f: "f \<in> set fs" and g: "g \<in> set (referencedOrImported E f (the (languageServiceHost prog f)))"
      by auto
    from f assms obtain c where "languageServiceHost prog f = Some c" by auto
    then have "contentOf dsk (languageServiceHost prog) f = Some c" by (simp add: contentOf_def)
    with f g \<open>languageServiceHost prog f = Some c\<close>
    have "(f, g) \<in> edges E (contentOf dsk (languageServiceHost prog))" by (simp add: edges_def)
    with f show "g \<in> edges E (contentOf dsk (languageServiceHost prog)) `` set fs" by blast
  next
    fix g assume "g \<in> edges E (contentOf dsk (languageServiceHost prog)) `` set fs"
    then obtain f c where f: "f \<in> set fs" and c: "contentOf dsk (languageServiceHost prog) f = Some c"
      and g: "g \<in> set (referencedOrImported E f c)"
      by (auto simp: edges_def)
    from f assms obtain c' where c': "languageServiceHost prog f = Some c'" by auto
    with c have "c' = c" by (simp add: contentOf_def)
    with g c' have "g \<in> set (referencedOrImported E f (the (languageServiceHost prog f)))" by simp
    with f show "g \<in> set ?cands" by auto
  qed
  ultimately show ?thesis by blast
qed

lemma scanForMore_props:
  assumes known: "set (files (projectFile prog)) \<subseteq> dom (languageServiceHost prog)"
    and scan: "scanForMore E dsk prog = Inr (m, prog')"
  shows "dom (languageServiceHost prog') = dom (languageServiceHost prog)
           \<union> edges E (contentOf dsk (languageServiceHost prog)) `` set (files (projectFile prog))"
    and "set (files (projectFile prog')) = set (files (projectFile prog)) \<union> set m"
    and "set m = edges E (contentOf dsk (languageServiceHost prog)) `` set (files (projectFile prog))
           - dom (languageServiceHost prog)"
    and "contentOf dsk (languageServiceHost prog') = contentOf dsk (languageServiceHost prog)"
proof -
  from getReferencedOrImportedFiles_known[OF known, of E dsk] obtain cands
    where g: "getReferencedOrImportedFiles E prog (files (projectFile prog)) = Inr cands"
      and c: "set cands = edges E (contentOf dsk (languageServiceHost prog)) `` set (files (projectFile prog))"
    by blast
  from scan g have "filter_willNeedMoreAnalysis dsk prog cands = Inr (m, prog')"
    by (simp add: scanForMore_def)
  from filter_willNeedMoreAnalysis_props[OF this] c
  show "dom (languageServiceHost prog') = dom (languageServiceHost prog)
           \<union> edges E (contentOf dsk (languageServiceHost prog)) `` set (files (projectFile prog))"
    and "set (files (projectFile prog')) = set (files (projectFile prog)) \<union> set m"
    and "set m = edges E (contentOf dsk (languageServiceHost prog)) `` set (files (projectFile prog))
           - dom (languageServiceHost prog)"
    and "contentOf dsk (languageServiceHost prog') = contentOf dsk (languageServiceHost prog)"
    by simp_all
qed

lemma scanForMore_frame:
  assumes "scanForMore E dsk prog = Inr (m, prog')"
  shows "projectFileDirectory (projectFile prog') = projectFileDirectory (projectFile prog)"
    and "m = [] \<Longrightarrow> prog' = prog"
proof -
  from assms obtain cands where "filter_willNeedMoreAnalysis dsk prog cands = Inr (m, prog')"
    by (auto simp: scanForMore_def split: sum.splits)
  from filter_willNeedMoreAnalysis_props[OF this]
  show "projectFileDirectory (projectFile prog') = projectFileDirectory (projectFile prog)"
    and "m = [] \<Longrightarrow> prog' = prog"
    by simp_all
qed

lemma scanForMore_ok:
  assumes known: "set (files (projectFile prog)) \<subseteq> dom (languageServiceHost prog)"
    and res: "edges E (contentOf dsk (languageServiceHost prog)) `` set (files (projectFile prog))
                \<subseteq> dom (contentOf dsk (languageServiceHost prog))"
  shows "\<exists>m prog'. scanForMore E dsk prog = Inr (m, prog')"
proof -
  from getReferencedOrImportedFiles_known[OF known, of E dsk] obtain cands
    where g: "getReferencedOrImportedFiles E prog (files (projectFile prog)) = Inr cands"
      and c: "set cands = edges E (contentOf dsk (languageServiceHost prog)) `` set (files (projectFile prog))"
    by blast
  from c res have "set cands \<subseteq> dom (contentOf dsk (languageServiceHost prog))" by simp
  from filter_willNeedMoreAnalysis_ok[OF this] g show ?thesis
    by (simp add: scanForMore_def)
qed

lemma expandWhileMore_nonempty:
  "m \<noteq> [] \<Longrightarrow> expandWhileMore E dsk m prog = increaseProjectForReferenceAndImports E dsk prog"
  by (subst expandWhileMore.simps) (simp add: increaseProjectForReferenceAndImports_def)

lemma expandWhileMore_empty: "expandWhileMore E dsk [] prog = Some (Inr prog)"
  by (subst expandWhileMore.simps) simp



lemma scanForMore_grows:
  assumes fin: "finite R" and closed: "Ed `` R \<subseteq> R"
    and known: "set (files (projectFile prog)) \<subseteq> dom (languageServiceHost prog)"
    and inR: "set (files (projectFile prog)) \<subseteq> R"
    and ed: "edges E (contentOf dsk (languageServiceHost prog)) = Ed"
    and scan: "scanForMore E dsk prog = Inr (m, prog')"
  shows "set (files (projectFile prog')) \<subseteq> dom (languageServiceHost prog')"
    and "set (files (projectFile prog')) \<subseteq> R"
    and "edges E (contentOf dsk (languageServiceHost prog')) = Ed"
    and "m \<noteq> [] \<Longrightarrow> card (R - dom (languageServiceHost prog')) < card (R - dom (languageServiceHost prog))"
proof -
  note p = scanForMore_props[OF known scan]
  have N: "Ed `` set (files (projectFile prog)) \<subseteq> R" using inR closed by blast
  show "set (files (projectFile prog')) \<subseteq> dom (languageServiceHost prog')"
    using p(1,2,3) known ed by auto
  show "set (files (projectFile prog')) \<subseteq> R"
    using p(2,3) inR N ed by auto
  show "edges E (contentOf dsk (languageServiceHost prog')) = Ed"
    using p(4) ed by simp
  show "card (R - dom (languageServiceHost prog')) < card (R - dom (languageServiceHost prog))"
    if "m \<noteq> []"
  proof -
    from that obtain x where "x \<in> set m" by (cases m) auto
    with p(3) ed N have x: "x \<in> R" "x \<notin> dom (languageServiceHost prog)" by auto
    from \<open>x \<in> set m\<close> p(1,3) have x': "x \<in> dom (languageServiceHost prog')" by auto
    have "R - dom (languageServiceHost prog') \<subset> R - dom (languageServiceHost prog)"
      using x x' p(1) by auto
    with fin show ?thesis by (simp add: psubset_card_mono)
  qed
qed

lemma increase_terminates_aux:
  assumes fin: "finite R" and closed: "Ed `` R \<subseteq> R"
  shows "set (files (projectFile prog)) \<subseteq> dom (languageServiceHost prog) \<Longrightarrow>
         set (files (projectFile prog)) \<subseteq> R \<Longrightarrow>
         edges E (contentOf dsk (languageServiceHost prog)) = Ed \<Longrightarrow>
         \<exists>r. increaseProjectForReferenceAndImports E dsk prog = Some r"
proof (induction "card (R - dom (languageServiceHost prog))" arbitrary: prog rule: less_induct)
  case less
  show ?case
  proof (cases "scanForMore E dsk prog")
    case (Inl e)
    then show ?thesis by (simp add: increaseProjectForReferenceAndImports_def)
  next
    case (Inr mp)
    then obtain m prog' where scan: "scanForMore E dsk prog = Inr (m, prog')" by (cases mp) auto
    note g = scanForMore_grows[OF fin closed less.prems scan]
    show ?thesis
    proof (cases "m = []")
      case True
      with scan show ?thesis
        by (simp add: increaseProjectForReferenceAndImports_def expandWhileMore_empty)
    next
      case False
      from less.hyps[OF g(4)[OF False] g(1,2,3)]
      obtain r where "increaseProjectForReferenceAndImports E dsk prog' = Some r" by blast
      with scan False show ?thesis
        by (simp add: increaseProjectForReferenceAndImports_def expandWhileMore_nonempty)
    qed
  qed
qed

lemma reachable_closed:
  "edges E (contentOf dsk (languageServiceHost prog)) `` reachable E dsk prog \<subseteq> reachable E dsk prog"
  unfolding reachable_def by (auto intro: rtrancl_into_rtrancl)

lemma files_reachable: "set (files (projectFile prog)) \<subseteq> reachable E dsk prog"
  unfolding reachable_def by auto

lemma increase_terminates:
  assumes "finite (reachable E dsk prog)"
    and "set (files (projectFile prog)) \<subseteq> dom (languageServiceHost prog)"
  shows "\<exists>r. increaseProjectForReferenceAndImports E dsk prog = Some r"
  using increase_terminates_aux[OF assms(1) reachable_closed assms(2) files_reachable refl] .


lemma increase_closure_aux:
  assumes fin: "finite R" and R: "R = Ed\<^sup>* `` S0" and res: "R \<subseteq> dom C"
  shows "set (files (projectFile prog)) \<subseteq> dom (languageServiceHost prog) \<Longrightarrow>
         dom (languageServiceHost prog) \<inter> R \<subseteq> set (files (projectFile prog)) \<Longrightarrow>
         S0 \<subseteq> set (files (projectFile prog)) \<Longrightarrow>
         set (files (projectFile prog)) \<subseteq> R \<Longrightarrow>
         contentOf dsk (languageServiceHost prog) = C \<Longrightarrow>
         edges E C = Ed \<Longrightarrow>
         \<exists>prog'. increaseProjectForReferenceAndImports E dsk prog = Some (Inr prog')
                 \<and> set (files (projectFile prog')) = R"
proof (induction "card (R - dom (languageServiceHost prog))" arbitrary: prog rule: less_induct)
  case less
  have closed: "Ed `` R \<subseteq> R" unfolding R by (auto intro: rtrancl_into_rtrancl)
  have ed: "edges E (contentOf dsk (languageServiceHost prog)) = Ed"
    using less.prems(5,6) by simp
  have N: "Ed `` set (files (projectFile prog)) \<subseteq> R" using less.prems(4) closed by blast
  with res have "Ed `` set (files (projectFile prog)) \<subseteq> dom C" by blast
  with less.prems(5) ed
  have "edges E (contentOf dsk (languageServiceHost prog)) `` set (files (projectFile prog))
          \<subseteq> dom (contentOf dsk (languageServiceHost prog))" by simp
  from scanForMore_ok[OF less.prems(1) this]
  obtain m prog' where scan: "scanForMore E dsk prog = Inr (m, prog')" by blast
  note p = scanForMore_props[OF less.prems(1) scan]
  note g = scanForMore_grows[OF fin closed less.prems(1) less.prems(4) ed scan]
  show ?case
  proof (cases "m = []")
    case True
    with scanForMore_frame(2)[OF scan] have same: "prog' = prog" by simp
    from True p(3) ed have "Ed `` set (files (projectFile prog)) \<subseteq> dom (languageServiceHost prog)"
      by auto
    with N less.prems(2) have "Ed `` set (files (projectFile prog)) \<subseteq> set (files (projectFile prog))"
      by blast
    then have "Ed\<^sup>* `` set (files (projectFile prog)) = set (files (projectFile prog))"
      by (rule Image_closed_trancl)
    moreover have "R \<subseteq> Ed\<^sup>* `` set (files (projectFile prog))"
      unfolding R using less.prems(3) by blast
    ultimately have "set (files (projectFile prog)) = R" using less.prems(4) by blast
    with scan True same show ?thesis
      by (simp add: increaseProjectForReferenceAndImports_def expandWhileMore_empty)
  next
    case False
    have a: "dom (languageServiceHost prog') \<inter> R \<subseteq> set (files (projectFile prog'))"
      using p(1,2,3) ed less.prems(2) by auto
    have b: "S0 \<subseteq> set (files (projectFile prog'))"
      using p(2) less.prems(3) by auto
    have c: "contentOf dsk (languageServiceHost prog') = C"
      using p(4) less.prems(5) by simp
    from less.hyps[OF g(4)[OF False] g(1) a b g(2) c less.prems(6)]
    obtain q where "increaseProjectForReferenceAndImports E dsk prog' = Some (Inr q)"
      and "set (files (projectFile q)) = R" by blast
    with scan False show ?thesis
      by (simp add: increaseProjectForReferenceAndImports_def expandWhileMore_nonempty)
  qed
qed

text \<open>Claim C1. Take a project whose host knows every project file and holds no other
  script among the reachable files, whose reachable files are finitely many and each
  resolvable (in the host or on disk). Then \<^verbatim>\<open>increaseProjectForReferenceAndImports\<close>
  returns, without an exception, a project whose file set is exactly the set of files
  reachable from the initial files along reference and relative-import edges: every such
  file is included and no other file is added.\<close>

theorem closure_equals_reachable:
  assumes "finite (reachable E dsk prog)"
    and "reachable E dsk prog \<subseteq> dom (contentOf dsk (languageServiceHost prog))"
    and "set (files (projectFile prog)) \<subseteq> dom (languageServiceHost prog)"
    and "dom (languageServiceHost prog) \<inter> reachable E dsk prog \<subseteq> set (files (projectFile prog))"
  shows "\<exists>prog'. increaseProjectForReferenceAndImports E dsk prog = Some (Inr prog')
           \<and> set (files (projectFile prog')) = reachable E dsk prog"
  by (rule increase_closure_aux[OF assms(1) _ assms(2) assms(3) assms(4) subset_refl files_reachable refl refl])
     (simp add: reachable_def)

lemma expandWhileMore_fixed:
  assumes "expandWhileMore E dsk m prog = Some r"
  shows "(m = [] \<longrightarrow> scanForMore E dsk prog = Inr ([], prog)) \<longrightarrow>
         (\<forall>q. r = Inr q \<longrightarrow> scanForMore E dsk q = Inr ([], q))"
  using assms
proof (induction rule: expandWhileMore.raw_induct[rotated 1, consumes 1, case_names step])
  case (step loop E dsk m prog r)
  note 1 = step
  show ?case
  proof (cases "m = []")
    case True
    with 1(2) show ?thesis by auto
  next
    case False
    show ?thesis
    proof (cases "scanForMore E dsk prog")
      case (Inl e)
      with False 1(2) show ?thesis by auto
    next
      case (Inr mp)
      then obtain m' prog' where scan: "scanForMore E dsk prog = Inr (m', prog')" by (cases mp) auto
      with False 1(2) have rec: "loop E dsk m' prog' = Some r" by simp
      have "m' = [] \<longrightarrow> scanForMore E dsk prog' = Inr ([], prog')"
        using scan scanForMore_frame(2)[OF scan] by auto
      with 1(1)[OF rec] show ?thesis by blast
    qed
  qed
qed

lemma increase_idempotent:
  assumes "increaseProjectForReferenceAndImports E dsk prog = Some (Inr prog')"
  shows "increaseProjectForReferenceAndImports E dsk prog' = Some (Inr prog')"
proof -
  from assms obtain m p1 where scan: "scanForMore E dsk prog = Inr (m, p1)"
    and loop: "expandWhileMore E dsk m p1 = Some (Inr prog')"
    by (auto simp: increaseProjectForReferenceAndImports_def split: sum.splits)
  have "m = [] \<longrightarrow> scanForMore E dsk p1 = Inr ([], p1)"
    using scan scanForMore_frame(2)[OF scan] by auto
  with expandWhileMore_fixed[OF loop] have "scanForMore E dsk prog' = Inr ([], prog')" by blast
  then show ?thesis
    by (simp add: increaseProjectForReferenceAndImports_def expandWhileMore_empty)
qed

subsection \<open>The example project\<close>


lemma demo_targets:
  "referencedOrImported demo_env ''/p/a.ts'' ''A'' = [''/p/b.ts'', ''/p/c.ts'']"
  "referencedOrImported demo_env ''/p/b.ts'' ''B'' = [''/p/a.ts'']"
  "referencedOrImported demo_env ''/p/c.ts'' ''C'' = []"
  by (simp_all add: referencedOrImported_def demo_env_def demo_preProcessFile_def
      posix_resolve_def posix_dirname_def isRelative_def joinSegments_def)

lemma demo_scan1:
  "scanForMore demo_env demo_disk demo_program = Inr ([''/p/b.ts'', ''/p/c.ts''], demo_closed)"
  by (simp add: scanForMore_def getReferencedOrImportedFiles_def selectMany_def demo_targets
      demo_program_def demo_closed_def willNeedMoreAnalysis_def demo_disk_def)

lemma demo_scan2:
  "scanForMore demo_env demo_disk demo_closed = Inr ([], demo_closed)"
  by (simp add: scanForMore_def getReferencedOrImportedFiles_def selectMany_def demo_targets
      demo_closed_def willNeedMoreAnalysis_def demo_disk_def)

lemma demo_increase:
  "increaseProjectForReferenceAndImports demo_env demo_disk demo_program = Some (Inr demo_closed)"
  by (simp add: increaseProjectForReferenceAndImports_def demo_scan1 demo_scan2
      expandWhileMore_nonempty expandWhileMore_empty)


lemma demo_contentOf: "contentOf demo_disk (languageServiceHost demo_program) = demo_disk"
  by (rule ext) (simp add: contentOf_def demo_program_def demo_disk_def)

lemma demo_edges_closed:
  "edges demo_env demo_disk `` {''/p/a.ts'', ''/p/b.ts'', ''/p/c.ts''}
     \<subseteq> {''/p/a.ts'', ''/p/b.ts'', ''/p/c.ts''}"
  by (auto simp: edges_def demo_disk_def demo_targets split: if_splits)

lemma demo_edges_from_a:
  "(''/p/a.ts'', ''/p/b.ts'') \<in> edges demo_env demo_disk"
  "(''/p/a.ts'', ''/p/c.ts'') \<in> edges demo_env demo_disk"
  by (simp_all add: edges_def demo_disk_def demo_targets)

lemma demo_reachable:
  "reachable demo_env demo_disk demo_program = {''/p/a.ts'', ''/p/b.ts'', ''/p/c.ts''}"
proof -
  let ?Ed = "edges demo_env demo_disk"
  let ?S = "{''/p/a.ts'', ''/p/b.ts'', ''/p/c.ts''}"
  have r: "reachable demo_env demo_disk demo_program = ?Ed\<^sup>* `` {''/p/a.ts''}"
    by (simp add: reachable_def demo_contentOf) (simp add: demo_program_def)
  have "?Ed\<^sup>* `` ?S = ?S" using demo_edges_closed by (rule Image_closed_trancl)
  moreover have "?Ed\<^sup>* `` {''/p/a.ts''} \<subseteq> ?Ed\<^sup>* `` ?S" by blast
  ultimately have "?Ed\<^sup>* `` {''/p/a.ts''} \<subseteq> ?S" by simp
  moreover have "?S \<subseteq> ?Ed\<^sup>* `` {''/p/a.ts''}"
    using demo_edges_from_a by auto
  ultimately show ?thesis unfolding r by blast
qed

theorem closure_equals_reachable_witness:
  "\<exists>prog'. increaseProjectForReferenceAndImports demo_env demo_disk demo_program = Some (Inr prog')
      \<and> set (files (projectFile prog')) = {''/p/a.ts'', ''/p/b.ts'', ''/p/c.ts''}"
proof -
  have 1: "finite (reachable demo_env demo_disk demo_program)" by (simp add: demo_reachable)
  have 2: "reachable demo_env demo_disk demo_program
             \<subseteq> dom (contentOf demo_disk (languageServiceHost demo_program))"
    by (simp add: demo_reachable demo_contentOf) (simp add: demo_disk_def)
  have 3: "set (files (projectFile demo_program)) \<subseteq> dom (languageServiceHost demo_program)"
    by (simp add: demo_program_def)
  have 4: "dom (languageServiceHost demo_program) \<inter> reachable demo_env demo_disk demo_program
             \<subseteq> set (files (projectFile demo_program))"
    by (simp add: demo_program_def)
  from closure_equals_reachable[OF 1 2 3 4] show ?thesis by (simp add: demo_reachable)
qed


lemma scanForMore_strict:
  assumes known: "set (files (projectFile prog)) \<subseteq> dom (languageServiceHost prog)"
    and scan: "scanForMore E dsk prog = Inr (m, prog')" and m: "m \<noteq> []"
  shows "set (files (projectFile prog)) \<subset> set (files (projectFile prog'))"
proof -
  note p = scanForMore_props[OF known scan]
  from m obtain x where x: "x \<in> set m" by (cases m) auto
  with p(3) have "x \<notin> dom (languageServiceHost prog)" by auto
  with known have "x \<notin> set (files (projectFile prog))" by auto
  with x p(2) show ?thesis by auto
qed

lemma increase_all_known:
  assumes known: "set (files (projectFile prog)) \<subseteq> dom (languageServiceHost prog)"
    and all: "reachable E dsk prog \<subseteq> dom (languageServiceHost prog)"
  shows "increaseProjectForReferenceAndImports E dsk prog = Some (Inr prog)"
proof -
  let ?Ed = "edges E (contentOf dsk (languageServiceHost prog))"
  have N: "?Ed `` set (files (projectFile prog)) \<subseteq> reachable E dsk prog"
    using reachable_closed[of E dsk prog] files_reachable[of prog E dsk] by blast
  have "dom (languageServiceHost prog) \<subseteq> dom (contentOf dsk (languageServiceHost prog))"
    by (auto simp: contentOf_def)
  with N all have "?Ed `` set (files (projectFile prog)) \<subseteq> dom (contentOf dsk (languageServiceHost prog))"
    by blast
  from scanForMore_ok[OF known this] obtain m prog' where scan: "scanForMore E dsk prog = Inr (m, prog')"
    by blast
  from N all have "?Ed `` set (files (projectFile prog)) \<subseteq> dom (languageServiceHost prog)"
    by (rule subset_trans)
  with scanForMore_props(3)[OF known scan] have "set m = {}" by simp
  then have "m = []" by simp
  with scanForMore_frame(2)[OF scan] scan show ?thesis
    by (simp add: increaseProjectForReferenceAndImports_def expandWhileMore_empty)
qed

text \<open>Claim C2. On a finite reference/import graph, cyclic or not, the expansion returns
  (with a project or with the exception of a failed read): a scan that finds new files
  strictly grows the file set, and once every reachable file is known the scan finds
  nothing and the project is returned as it is.\<close>

theorem closure_loop_terminates:
  assumes "finite (reachable E dsk prog)"
    and "set (files (projectFile prog)) \<subseteq> dom (languageServiceHost prog)"
  shows "(\<exists>r. increaseProjectForReferenceAndImports E dsk prog = Some r)
       \<and> (\<forall>m prog'. scanForMore E dsk prog = Inr (m, prog') \<and> m \<noteq> [] \<longrightarrow>
             set (files (projectFile prog)) \<subset> set (files (projectFile prog')))
       \<and> (reachable E dsk prog \<subseteq> dom (languageServiceHost prog) \<longrightarrow>
             increaseProjectForReferenceAndImports E dsk prog = Some (Inr prog))"
  using increase_terminates[OF assms] scanForMore_strict[OF assms(2)] increase_all_known[OF assms(2)]
  by blast

theorem closure_loop_terminates_witness:
  "finite (reachable demo_env demo_disk demo_program)
   \<and> (''/p/b.ts'', ''/p/a.ts'') \<in> edges demo_env demo_disk
   \<and> (\<exists>r. increaseProjectForReferenceAndImports demo_env demo_disk demo_program = Some r)"
proof -
  have 1: "finite (reachable demo_env demo_disk demo_program)" by (simp add: demo_reachable)
  have 2: "set (files (projectFile demo_program)) \<subseteq> dom (languageServiceHost demo_program)"
    by (simp add: demo_program_def)
  have 3: "(''/p/b.ts'', ''/p/a.ts'') \<in> edges demo_env demo_disk"
    by (simp add: edges_def demo_disk_def demo_targets)
  from closure_loop_terminates[OF 1 2] 1 3 show ?thesis by blast
qed

text \<open>Claim C8. For a file the host already has a script of, \<^verbatim>\<open>willNeedMoreAnalysis\<close>
  answers false and leaves host and file list as they are; and running the expansion
  again on the project it returned changes nothing.\<close>

theorem known_file_is_noop:
  "(languageServiceHost prog fpath \<noteq> None \<longrightarrow> willNeedMoreAnalysis dsk prog fpath = Inr (False, prog))
   \<and> (increaseProjectForReferenceAndImports E dsk prog = Some (Inr prog') \<longrightarrow>
        increaseProjectForReferenceAndImports E dsk prog' = Some (Inr prog'))"
  using willNeedMoreAnalysis_known increase_idempotent by blast

theorem known_file_is_noop_witness:
  "willNeedMoreAnalysis demo_disk demo_program ''/p/a.ts'' = Inr (False, demo_program)
   \<and> increaseProjectForReferenceAndImports demo_env demo_disk demo_closed = Some (Inr demo_closed)"
proof -
  have "languageServiceHost demo_program ''/p/a.ts'' \<noteq> None" by (simp add: demo_program_def)
  with known_file_is_noop[where prog = demo_program and fpath = "''/p/a.ts''" and dsk = demo_disk
      and E = demo_env and prog' = demo_closed]
    demo_increase
  show ?thesis by blast
qed

section \<open>Properties of reference and import resolution\<close>





section \<open>Properties of emit\<close>

lemma written_Nil: "written dsk [] = dsk"
  by (simp add: written_def)

lemma written_Cons: "written dsk (out # outs) = written (dsk(out_name out \<mapsto> out_text out)) outs"
  by (simp add: written_def)

lemma writeOutputFiles_append:
  "\<forall>out \<in> set pre. writable E (out_name out) \<Longrightarrow>
   writeOutputFiles E dsk (pre @ rest) =
     writeOutputFiles E (written dsk pre) rest"
  by (induction pre arbitrary: dsk) (auto simp: written_Nil written_Cons)

lemma writeOutputFiles_all:
  "\<forall>out \<in> set outs. writable E (out_name out) \<Longrightarrow>
   writeOutputFiles E dsk outs = (written dsk outs, None)"
  using writeOutputFiles_append[of outs E dsk "[]"] by simp

lemma writeOutputFiles_stops:
  "\<forall>out \<in> set pre. writable E (out_name out) \<Longrightarrow> \<not> writable E (out_name bad) \<Longrightarrow>
   writeOutputFiles E dsk (pre @ bad # post) =
     (written dsk pre, Some (EWRITE (out_name bad)))"
  by (simp add: writeOutputFiles_append)

lemma written_other:
  "p \<notin> out_name ` set outs \<Longrightarrow> written dsk outs p = dsk p"
  by (induction outs arbitrary: dsk) (auto simp: written_Nil written_Cons)

lemma written_lookup:
  "distinct (map out_name outs) \<Longrightarrow> out \<in> set outs \<Longrightarrow>
   written dsk outs (out_name out) = Some (out_text out)"
proof (induction outs arbitrary: dsk)
  case Nil
  then show ?case by simp
next
  case (Cons a outs)
  show ?case
  proof (cases "out = a")
    case True
    with Cons.prems(1) show ?thesis by (simp add: written_Cons written_other)
  next
    case False
    with Cons show ?thesis by (simp add: written_Cons)
  qed
qed

text \<open>Claim C9. \<^verbatim>\<open>emitFile\<close> writes the output files whatever the emit status: when every
  path can be written, the disk afterwards holds all of them (each at its name, when the
  names differ) and the result reports the status. Nothing is rolled back: when the write
  of a later file fails, the call fails and the files before it stay written.\<close>

theorem emitFile_writes_regardless:
  "((\<forall>out \<in> set (service_outputFiles (getEmitOutput E (languageServiceHost prog) fpath)).
        writable E (out_name out)) \<longrightarrow>
      disk (fst (emitFile E w prog fpath)) =
        written (disk w)
          (service_outputFiles (getEmitOutput E (languageServiceHost prog) fpath))
      \<and> (\<exists>r. snd (emitFile E w prog fpath) = Inr r
             \<and> success r = (emitOutputStatus (getEmitOutput E (languageServiceHost prog) fpath) = Succeeded))
      \<and> (distinct (map out_name (service_outputFiles (getEmitOutput E (languageServiceHost prog) fpath))) \<longrightarrow>
           (\<forall>out \<in> set (service_outputFiles (getEmitOutput E (languageServiceHost prog) fpath)).
              disk (fst (emitFile E w prog fpath)) (out_name out) = Some (out_text out))))
   \<and> (service_outputFiles (getEmitOutput E (languageServiceHost prog) fpath) = pre @ bad # post
        \<and> (\<forall>out \<in> set pre. writable E (out_name out)) \<and> \<not> writable E (out_name bad) \<longrightarrow>
      disk (fst (emitFile E w prog fpath)) = written (disk w) pre
      \<and> snd (emitFile E w prog fpath) = Inl (EWRITE (out_name bad)))"
proof (intro conjI impI)
  let ?outs = "service_outputFiles (getEmitOutput E (languageServiceHost prog) fpath)"
  let ?w = "written"
  {
    assume all: "\<forall>out \<in> set ?outs. writable E (out_name out)"
    show d: "disk (fst (emitFile E w prog fpath)) = ?w (disk w) ?outs"
      by (simp add: emitFile_def Let_def writeOutputFiles_all[OF all])
    show "\<exists>r. snd (emitFile E w prog fpath) = Inr r
             \<and> success r = (emitOutputStatus (getEmitOutput E (languageServiceHost prog) fpath) = Succeeded)"
      by (simp add: emitFile_def Let_def writeOutputFiles_all[OF all])
    assume "distinct (map out_name ?outs)"
    then show "\<forall>out \<in> set ?outs. disk (fst (emitFile E w prog fpath)) (out_name out) = Some (out_text out)"
      unfolding d by (simp add: written_lookup)
  }
  assume a: "?outs = pre @ bad # post \<and> (\<forall>out \<in> set pre. writable E (out_name out)) \<and> \<not> writable E (out_name bad)"
  then have "writeOutputFiles E (disk w) ?outs = (?w (disk w) pre, Some (EWRITE (out_name bad)))"
    by (simp add: writeOutputFiles_stops)
  then show "disk (fst (emitFile E w prog fpath)) = ?w (disk w) pre"
    and "snd (emitFile E w prog fpath) = Inl (EWRITE (out_name bad))"
    by (simp_all add: emitFile_def Let_def)
qed


lemma demo_outputs_y:
  "getEmitOutput demo_env (languageServiceHost demo_program_q) ''/q/y/index.ts'' =
     \<lparr>emitOutputStatus = AllOutputGenerationSkipped,
      service_outputFiles =
        [\<lparr>out_name = ''/q/y/index.ts.js'', out_text = ''js''\<rparr>,
         \<lparr>out_name = ''/ro/y.map'', out_text = ''map''\<rparr>,
         \<lparr>out_name = ''/q/y/index.ts.d.ts'', out_text = ''decl''\<rparr>]\<rparr>"
  "getEmitOutput demo_env_ro = getEmitOutput demo_env"
  by (simp_all add: demo_env_ro_def demo_env_def demo_getEmitOutput_def demo_program_q_def)

theorem emitFile_writes_regardless_witness:
  "snd (emitFile demo_env_ro demo_world demo_program_q ''/q/y/index.ts'') = Inl (EWRITE ''/ro/y.map'')
   \<and> disk (fst (emitFile demo_env_ro demo_world demo_program_q ''/q/y/index.ts'')) ''/q/y/index.ts.js''
       = Some ''js''
   \<and> disk (fst (emitFile demo_env_ro demo_world demo_program_q ''/q/y/index.ts'')) ''/q/y/index.ts.d.ts''
       = None
   \<and> (\<exists>r. snd (emitFile demo_env demo_world demo_program_q ''/q/y/index.ts'') = Inr r \<and> \<not> success r)
   \<and> disk (fst (emitFile demo_env demo_world demo_program_q ''/q/y/index.ts'')) ''/q/y/index.ts.d.ts''
       = Some ''decl''"
proof -
  let ?js = "\<lparr>out_name = ''/q/y/index.ts.js'', out_text = ''js''\<rparr>"
  let ?map = "\<lparr>out_name = ''/ro/y.map'', out_text = ''map''\<rparr>"
  let ?decl = "\<lparr>out_name = ''/q/y/index.ts.d.ts'', out_text = ''decl''\<rparr>"
  have ro: "\<not> writable demo_env_ro ''/ro/y.map''" "writable demo_env_ro ''/q/y/index.ts.js''"
    by (simp_all add: demo_env_ro_def)
  have rw: "writable demo_env p" for p
    by (simp add: demo_env_def)
  from emitFile_writes_regardless[where E = demo_env_ro and w = demo_world and prog = demo_program_q
      and fpath = "''/q/y/index.ts''" and pre = "[?js]" and bad = ?map and post = "[?decl]"]
  have 1: "disk (fst (emitFile demo_env_ro demo_world demo_program_q ''/q/y/index.ts''))
             = written (disk demo_world) [?js]"
    and 2: "snd (emitFile demo_env_ro demo_world demo_program_q ''/q/y/index.ts'') = Inl (EWRITE ''/ro/y.map'')"
    by (simp_all add: demo_outputs_y ro)
  from emitFile_writes_regardless[where E = demo_env and w = demo_world and prog = demo_program_q
      and fpath = "''/q/y/index.ts''" and pre = "[]" and bad = ?js and post = "[]"]
  have 3: "disk (fst (emitFile demo_env demo_world demo_program_q ''/q/y/index.ts''))
             = written (disk demo_world) [?js, ?map, ?decl]"
    and 4: "\<exists>r. snd (emitFile demo_env demo_world demo_program_q ''/q/y/index.ts'') = Inr r \<and> \<not> success r"
    by (simp_all add: demo_outputs_y rw)
  show ?thesis
    unfolding 1 3 using 2 4
    by (simp add: written_def demo_world_def demo_disk_def)
qed

section \<open>Properties of the program cache\<close>























section \<open>Properties of diagnostics\<close>



lemma demo_project_q:
  "getOrCreateProject demo_env dsk ''/q/x/index.ts'' = Inr \<lparr>projectFileDirectory = ''/q'', files = [''/q/x/index.ts'']\<rparr>"
  "getOrCreateProject demo_env dsk ''/q/y/index.ts'' = Inr \<lparr>projectFileDirectory = ''/q'', files = [''/q/x/index.ts'']\<rparr>"
  by (simp_all add: getOrCreateProject_def demo_env_def)




lemma demo_hit_q:
  "getOrCreateProgram demo_env demo_world_q ''/q/x/index.ts'' = Some (demo_world_q, Inr 0)"
  "getOrCreateProgram demo_env demo_world_q ''/q/y/index.ts'' = Some (demo_world_q, Inr 0)"
  by (simp_all add: getOrCreateProgram_def demo_project_q) (simp_all add: demo_world_q_def)




lemma toTSError_Inr:
  assumes "toTSError E program fpath d = Inr err"
  shows "\<exists>content. languageServiceHost program fpath = Some content
           \<and> err = \<lparr>filePath = the (diag_file d),
                     startPos = getPositionFromIndex E (languageServiceHost program) fpath (diag_start d),
                     endPos = getPositionFromIndex E (languageServiceHost program) fpath
                                (diag_length d + diag_start d),
                     message = messageText d,
                     preview = take (diag_length d) (drop (diag_start d) content)\<rparr>"
  using assms by (auto simp: toTSError_def split: option.splits)

lemma mapToTSError_Inr:
  assumes "mapToTSError E program fpath ds = Inr errs"
    and "ds = [] \<or> languageServiceHost program fpath = Some content"
  shows "errs = map (\<lambda>d. \<lparr>filePath = the (diag_file d),
                     startPos = getPositionFromIndex E (languageServiceHost program) fpath (diag_start d),
                     endPos = getPositionFromIndex E (languageServiceHost program) fpath
                                (diag_length d + diag_start d),
                     message = messageText d,
                     preview = take (diag_length d) (drop (diag_start d) content)\<rparr>) ds"
  using assms
proof (induction ds arbitrary: errs)
  case Nil
  then show ?case by simp
next
  case (Cons d ds)
  from Cons.prems(1) obtain err rest where e: "toTSError E program fpath d = Inr err"
    and r: "mapToTSError E program fpath ds = Inr rest" and errs: "errs = err # rest"
    by (auto split: sum.splits)
  from Cons.prems(2) have c: "languageServiceHost program fpath = Some content" by simp
  from toTSError_Inr[OF e] c Cons.IH[OF r] errs show ?case by simp
qed

lemma mapToTSError_content:
  assumes "mapToTSError E program fpath ds = Inr errs"
  shows "ds = [] \<or> (\<exists>content. languageServiceHost program fpath = Some content)"
proof (cases ds)
  case Nil
  then show ?thesis by simp
next
  case (Cons d rest)
  with assms obtain err where "toTSError E program fpath d = Inr err"
    by (auto split: sum.splits)
  from toTSError_Inr[OF this] show ?thesis by blast
qed

text \<open>Claim C10. Every error record that \<^verbatim>\<open>getErrorsForFile\<close> returns for a path takes its
  start and end position from \<^verbatim>\<open>getPositionFromIndex\<close> at the queried path and its preview
  from the script of the queried path; only the \<^verbatim>\<open>filePath\<close> field comes from the file the
  diagnostic is attributed to. So a diagnostic attributed to another file is located and
  previewed in the text of the queried file.\<close>

theorem positions_from_queried_file:
  assumes "getErrorsForFile E w fpath = Some (w2, Inr errs)"
  shows "\<exists>w1 ref diagnostics content.
           getOrCreateProgram E w fpath = Some (w1, Inr ref)
         \<and> diagnostics =
             (if getSyntacticDiagnostics E (languageServiceHost (heap w1 ! ref)) fpath = []
              then getSemanticDiagnostics E (languageServiceHost (heap w1 ! ref)) fpath
              else getSyntacticDiagnostics E (languageServiceHost (heap w1 ! ref)) fpath)
         \<and> (diagnostics = [] \<or> languageServiceHost (heap w1 ! ref) fpath = Some content)
         \<and> errs = map (\<lambda>d. \<lparr>filePath = the (diag_file d),
                     startPos = getPositionFromIndex E (languageServiceHost (heap w1 ! ref)) fpath
                                  (diag_start d),
                     endPos = getPositionFromIndex E (languageServiceHost (heap w1 ! ref)) fpath
                                (diag_length d + diag_start d),
                     message = messageText d,
                     preview = take (diag_length d) (drop (diag_start d) content)\<rparr>) diagnostics"
proof -
  from assms obtain w1 ref where g: "getOrCreateProgram E w fpath = Some (w1, Inr ref)"
    by (auto simp: getErrorsForFile_def split: option.splits sum.splits)
  let ?host = "languageServiceHost (heap w1 ! ref)"
  let ?ds = "if getSyntacticDiagnostics E ?host fpath = []
              then getSemanticDiagnostics E ?host fpath
              else getSyntacticDiagnostics E ?host fpath"
  from assms g have m: "mapToTSError E (heap w1 ! ref) fpath ?ds = Inr errs"
    by (simp add: getErrorsForFile_def Let_def)
  from mapToTSError_content[OF m] obtain content
    where c: "?ds = [] \<or> ?host fpath = Some content" by blast
  from mapToTSError_Inr[OF m c] g c show ?thesis by blast
qed

theorem positions_from_queried_file_witness:
  "getErrorsForFile demo_env demo_world_q ''/q/x/index.ts'' =
     Some (demo_world_q\<lparr>requests := requests demo_world_q
              @ [GetSyntacticDiagnostics ''/q/x/index.ts'', GetSemanticDiagnostics ''/q/x/index.ts'']\<rparr>,
           Inr [\<lparr>filePath = ''/q/y/index.ts'', startPos = \<lparr>line = 0, ch = 0\<rparr>,
                 endPos = \<lparr>line = 0, ch = 1\<rparr>, message = ''expected'', preview = ''X''\<rparr>])
   \<and> languageServiceHost (heap demo_world_q ! 0) ''/q/x/index.ts'' = Some ''X''
   \<and> languageServiceHost (heap demo_world_q ! 0) ''/q/y/index.ts'' = Some ''Y''"
proof -
  let ?w2 = "demo_world_q\<lparr>requests := requests demo_world_q
              @ [GetSyntacticDiagnostics ''/q/x/index.ts'', GetSemanticDiagnostics ''/q/x/index.ts'']\<rparr>"
  let ?e = "\<lparr>filePath = ''/q/y/index.ts'', startPos = \<lparr>line = 0, ch = 0\<rparr>,
                 endPos = \<lparr>line = 0, ch = 1\<rparr>, message = ''expected'', preview = ''X''\<rparr>"
  have h: "languageServiceHost (heap demo_world_q ! 0) ''/q/x/index.ts'' = Some ''X''"
      "languageServiceHost (heap demo_world_q ! 0) ''/q/y/index.ts'' = Some ''Y''"
    by (simp_all add: demo_world_q_def demo_program_q_def)
  have d: "getSyntacticDiagnostics demo_env (languageServiceHost (heap demo_world_q ! 0)) ''/q/x/index.ts'' = []"
    "getSemanticDiagnostics demo_env (languageServiceHost (heap demo_world_q ! 0)) ''/q/x/index.ts''
      = [\<lparr>diag_file = Some ''/q/y/index.ts'', diag_start = 0, diag_length = 1, messageText = ''expected''\<rparr>]"
    by (simp_all add: h demo_env_def demo_getSyntacticDiagnostics_def demo_getSemanticDiagnostics_def
        posix_resolve_def posix_dirname_def joinSegments_def)
  have call: "getErrorsForFile demo_env demo_world_q ''/q/x/index.ts'' = Some (?w2, Inr [?e])"
    by (simp add: getErrorsForFile_def demo_hit_q d toTSError_def h) (simp add: demo_env_def)
  from positions_from_queried_file[OF call] h call show ?thesis by blast
qed


lemma getErrorsForFileFiltered_other_basename:
  assumes "getErrorsForFile E w fpath = Some (w', Inr errs)"
    and "\<forall>err \<in> set errs. basename E (filePath err) \<noteq> basename E fpath"
  shows "getErrorsForFileFiltered E w fpath = Some (w', Inr [])"
  using assms by (simp add: getErrorsForFileFiltered_def filter_empty_conv)


end
